theory Spec2Isabelle
  imports Complex_Main
begin

section \<open>Python strings\<close>

text \<open>
  The script works on Python \<open>str\<close> values. A \<^typ>\<open>string\<close> stands for a \<open>str\<close> whose
  code points are all below 256: a \<^typ>\<open>char\<close> is read as the code point with that
  number, so every ASCII text is itself. The character classes below are Python's
  own tables, restricted to this range.
\<close>

definition cp :: "char \<Rightarrow> nat" where
  "cp c = of_char c"

definition in_range :: "nat \<Rightarrow> nat \<Rightarrow> char \<Rightarrow> bool" where
  "in_range lo hi c = (lo \<le> cp c \<and> cp c \<le> hi)"

definition py_isspace :: "char \<Rightarrow> bool" where
  \<comment> \<open>\<open>str.isspace\<close> on one character, which is also the class \<open>\s\<close> of \<open>re\<close>:
      TAB, LF, VT, FF, CR, the separators FS, GS, RS, US, the space, NEL and the
      no-break space.\<close>
  "py_isspace c =
     (in_range 0x09 0x0D c \<or> in_range 0x1C 0x1F c \<or> cp c = 0x20
      \<or> cp c = 0x85 \<or> cp c = 0xA0)"

definition py_isword :: "char \<Rightarrow> bool" where
  \<comment> \<open>the class \<open>\w\<close> of \<open>re\<close> on a \<open>str\<close> pattern: \<open>str.isalnum\<close> or the underscore\<close>
  "py_isword c =
     (in_range 0x30 0x39 c \<or> in_range 0x41 0x5A c \<or> cp c = 0x5F
      \<or> in_range 0x61 0x7A c \<or> cp c = 0xAA \<or> in_range 0xB2 0xB3 c
      \<or> cp c = 0xB5 \<or> in_range 0xB9 0xBA c \<or> in_range 0xBC 0xBE c
      \<or> in_range 0xC0 0xD6 c \<or> in_range 0xD8 0xF6 c \<or> in_range 0xF8 0xFF c)"

definition upper_AZ :: "char \<Rightarrow> bool" where
  \<comment> \<open>the class \<open>[A-Z]\<close>\<close>
  "upper_AZ c = in_range 0x41 0x5A c"

definition lower_az :: "char \<Rightarrow> bool" where
  \<comment> \<open>the class \<open>[a-z]\<close>\<close>
  "lower_az c = in_range 0x61 0x7A c"

definition dash_or_bar :: "char \<Rightarrow> bool" where
  \<comment> \<open>the class \<open>[-|]\<close>\<close>
  "dash_or_bar c = (c = CHR ''-'' \<or> c = CHR ''|'')"

definition py_strip :: "string \<Rightarrow> string" where
  \<comment> \<open>\<open>s.strip()\<close>: leading and trailing whitespace removed\<close>
  "py_strip s = rev (dropWhile py_isspace (rev (dropWhile py_isspace s)))"

fun py_split_acc :: "char \<Rightarrow> string \<Rightarrow> string \<Rightarrow> string list" where
  "py_split_acc sep acc [] = [rev acc]"
| "py_split_acc sep acc (c # cs) =
     (if c = sep then rev acc # py_split_acc sep [] cs
      else py_split_acc sep (c # acc) cs)"

definition py_split :: "char \<Rightarrow> string \<Rightarrow> string list" where
  \<comment> \<open>\<open>s.split(sep)\<close> for a separator of one character: the pieces between the
      separators, empty pieces included, at least one piece\<close>
  "py_split sep s = py_split_acc sep [] s"

fun py_join :: "string \<Rightarrow> string list \<Rightarrow> string" where
  \<comment> \<open>\<open>sep.join(xs)\<close>\<close>
  "py_join sep [] = []"
| "py_join sep [x] = x"
| "py_join sep (x # y # ys) = x @ sep @ py_join sep (y # ys)"

section \<open>The regular expressions of module re\<close>

text \<open>
  The two patterns of the script use character classes, concatenation, greedy
  repetition and the word boundary \<open>\b\<close>. A pattern is matched the way \<open>re\<close> matches
  it, by backtracking: \<open>matches r p s\<close> lists every way \<open>r\<close> can match a prefix of
  \<open>s\<close>, in the order the backtracking matcher tries them, as the pair of the last
  character before the rest and the rest. \<open>p\<close> is the character before \<open>s\<close>
  (\<open>None\<close> at the start of the text), which \<open>\b\<close> looks at.
\<close>

datatype regex =
    Class "char \<Rightarrow> bool"
  | WordB
  | Seq regex regex
  | Star regex

abbreviation Many1 :: "regex \<Rightarrow> regex" where
  \<comment> \<open>\<open>r+\<close>\<close>
  "Many1 r \<equiv> Seq r (Star r)"

definition word_at :: "char option \<Rightarrow> bool" where
  "word_at p = (case p of None \<Rightarrow> False | Some c \<Rightarrow> py_isword c)"

function matches :: "regex \<Rightarrow> char option \<Rightarrow> string \<Rightarrow> (char option \<times> string) list" where
  "matches (Class P) p [] = []"
| "matches (Class P) p (c # cs) = (if P c then [(Some c, cs)] else [])"
| "matches WordB p s =
     (if word_at p \<noteq> word_at (case s of [] \<Rightarrow> None | c # _ \<Rightarrow> Some c)
      then [(p, s)] else [])"
| "matches (Seq r1 r2) p s =
     concat (map (\<lambda>(p', s'). matches r2 p' s') (matches r1 p s))"
| "matches (Star r) p s =
     concat (map (\<lambda>(p', s'). if length s' < length s then matches (Star r) p' s' else [])
                 (matches r p s))
     @ [(p, s)]"
  by pat_completeness auto
termination
  by (relation "measures [\<lambda>(r, p, s). size r, \<lambda>(r, p, s). length s]") auto

definition re_match ::
  "regex \<Rightarrow> char option \<Rightarrow> string \<Rightarrow> (string \<times> char option \<times> string) option" where
  \<comment> \<open>the match of \<open>r\<close> at this position, if there is one: the first way to match,
      as the matched text, its last character and the rest of the text\<close>
  "re_match r p s =
     (case matches r p s of
        [] \<Rightarrow> None
      | (p', s') # _ \<Rightarrow> Some (take (length s - length s') s, p', s'))"

text \<open>
  \<open>re.findall\<close> and \<open>re.split\<close> scan the text from left to right: where the pattern
  matches, the match is taken and the scan goes on after it; elsewhere the scan moves
  one character on. Both patterns of the script need at least one character, so a
  match is never empty (lemmas \<open>split_pattern_match_nonempty\<close> and
  \<open>stars_pattern_match_nonempty\<close>); the branches for an empty match are there to make
  the functions total (an empty match is reported by \<open>findall\<close> and ignored by
  \<open>split\<close>, and the scan moves one character on).
\<close>

function re_findall_from :: "regex \<Rightarrow> char option \<Rightarrow> string \<Rightarrow> string list" where
  "re_findall_from r p s =
     (case re_match r p s of
        Some (m, p', s') \<Rightarrow>
          if m \<noteq> [] then m # re_findall_from r p' s'
          else (case s of [] \<Rightarrow> [[]] | c # cs \<Rightarrow> [] # re_findall_from r (Some c) cs)
      | None \<Rightarrow> (case s of [] \<Rightarrow> [] | c # cs \<Rightarrow> re_findall_from r (Some c) cs))"
  by pat_completeness auto
termination
proof (relation "measure (\<lambda>(r, p, s). length s)")
  show "wf (measure (\<lambda>(r, p, s). length s))"
    by simp
qed (auto simp: re_match_def split: list.splits)

definition re_findall :: "regex \<Rightarrow> string \<Rightarrow> string list" where
  \<comment> \<open>\<open>re.findall(r, s)\<close> for a pattern without capturing groups\<close>
  "re_findall r s = re_findall_from r None s"

function re_split_from :: "regex \<Rightarrow> char option \<Rightarrow> string \<Rightarrow> string \<Rightarrow> string list" where
  "re_split_from r p acc s =
     (case re_match r p s of
        Some (m, p', s') \<Rightarrow>
          if m \<noteq> [] then rev acc # re_split_from r p' [] s'
          else (case s of [] \<Rightarrow> [rev acc] | c # cs \<Rightarrow> re_split_from r (Some c) (c # acc) cs)
      | None \<Rightarrow> (case s of [] \<Rightarrow> [rev acc] | c # cs \<Rightarrow> re_split_from r (Some c) (c # acc) cs))"
  by pat_completeness auto
termination
proof (relation "measure (\<lambda>(r, p, acc, s). length s)")
  show "wf (measure (\<lambda>(r, p, acc, s). length s))"
    by simp
qed (auto simp: re_match_def split: list.splits)

definition re_split :: "regex \<Rightarrow> string \<Rightarrow> string list" where
  \<comment> \<open>\<open>re.split(r, s)\<close> for a pattern without capturing groups\<close>
  "re_split r s = re_split_from r None [] s"

section \<open>Dictionaries that keep insertion order\<close>

text \<open>
  A Python \<open>dict\<close> lists its keys in the order of their first insertion; storing under a
  key that is already there replaces the value and leaves the key where it is.
  \<open>dict.fromkeys(xs)\<close> stores \<open>None\<close> under every element of \<open>xs\<close>, from left to right.
\<close>

fun dict_setitem :: "('k \<times> 'v) list \<Rightarrow> 'k \<Rightarrow> 'v \<Rightarrow> ('k \<times> 'v) list" where
  "dict_setitem [] k v = [(k, v)]"
| "dict_setitem ((k', v') # d) k v =
     (if k' = k then (k', v) # d else (k', v') # dict_setitem d k v)"

definition dict_fromkeys :: "'k list \<Rightarrow> ('k \<times> unit) list" where
  "dict_fromkeys xs = fold (\<lambda>k d. dict_setitem d k ()) xs []"

definition dict_keys :: "('k \<times> 'v) list \<Rightarrow> 'k list" where
  \<comment> \<open>\<open>list(d)\<close>\<close>
  "dict_keys d = map fst d"

section \<open>The data of the script\<close>

datatype error =
    ValueError string   \<comment> \<open>raised by \<open>get_channel_id\<close>, with its message\<close>
  | IndexError          \<comment> \<open>an index out of range\<close>
  | RequestError        \<comment> \<open>\<open>requests.get\<close> raised: no response came back\<close>

text \<open>The entries of \<open>videos\<close>, of \<open>details\<close> and of \<open>movies\<close>.\<close>

record video =
  videoId :: string
  v_title :: string
  v_description :: string

record detail =
  d_duration :: int
  d_category :: string
  d_description :: string

record movie =
  title :: string
  category :: string
  stars :: "string list"
  duration :: int
  description :: string

text \<open>
  The JSON documents of the three endpoints, with the fields the script reads. A field
  read with \<open>.get\<close> or tested with \<open>in\<close> may be absent (\<open>None\<close>); a field read with
  \<open>[...]\<close> is there. The duration of a video item is the number of seconds that
  \<open>isodate.parse_duration(...).total_seconds()\<close> gives for its ISO-8601 text: the
  service reports whole seconds, a float without fraction, on which \<open>//\<close> is the
  floor division of integers.
\<close>

record channel_item =
  ch_id :: string

record channels_response =
  ch_items :: "channel_item list option"

record search_item =
  si_videoId :: string
  si_title :: string
  si_description :: "string option"

record search_response =
  sr_items :: "search_item list option"
  nextPageToken :: "string option"

record video_item =
  vi_id :: string
  vi_duration :: int
  vi_categoryId :: "string option"
  vi_description :: "string option"

record videos_response =
  vr_items :: "video_item list option"

text \<open>
  A request is the endpoint with the parts of the URL that vary. The service is the
  sequence of responses it gives to the requests of each kind, in the order they are
  made; where the sequence is over, the request fails.
\<close>

datatype request =
    ChannelsGet string
  | SearchGet string "string option"
  | VideosGet string

record world =
  channels_responses :: "channels_response list"
  search_responses :: "search_response list"
  videos_responses :: "videos_response list"

text \<open>One constructor for each \<open>print\<close> statement of \<open>main\<close>, with the value it shows.\<close>

datatype console_line =
    Starting_movie_fetch
  | No_full_movies_found
  | New_Movie_Added
  | Title_line string
  | Category_line string
  | Stars_line string
  | Duration_line int
  | Description_line string

record run =
  sent :: "request list"
  printed :: "console_line list"
  outcome :: "error + movie list"

definition CHANNEL_HANDLE :: string where
  "CHANNEL_HANDLE = ''itelediconstudio''"

section \<open>The helpers\<close>

definition get_channel_id ::
  "string \<Rightarrow> channels_response list \<Rightarrow> request list \<times> (error + string)" where
  "get_channel_id handle resps =
     ([ChannelsGet handle],
      case resps of
        [] \<Rightarrow> Inl RequestError
      | resp # _ \<Rightarrow>
          (case ch_items resp of
             None \<Rightarrow> Inl (ValueError (''Could not resolve channel handle '' @ handle))
           | Some [] \<Rightarrow> Inl (ValueError (''Could not resolve channel handle '' @ handle))
           | Some (item # _) \<Rightarrow> Inr (ch_id item)))"

definition truthy :: "string option \<Rightarrow> bool" where
  \<comment> \<open>\<open>if page_token:\<close> holds for a string that is there and not empty\<close>
  "truthy t = (case t of None \<Rightarrow> False | Some s \<Rightarrow> s \<noteq> [])"

definition search_videos :: "search_response \<Rightarrow> video list" where
  \<comment> \<open>the entries appended for one page\<close>
  "search_videos resp =
     map (\<lambda>item. \<lparr>videoId = si_videoId item, v_title = si_title item,
                  v_description = (case si_description item of None \<Rightarrow> [] | Some d \<Rightarrow> d)\<rparr>)
         (case sr_items resp of None \<Rightarrow> [] | Some items \<Rightarrow> items)"

fun get_channel_videos_loop ::
  "string \<Rightarrow> video list \<Rightarrow> string option \<Rightarrow> search_response list
   \<Rightarrow> request list \<times> (error + video list)" where
  "get_channel_videos_loop channel_id videos page_token [] =
     ([SearchGet channel_id (if truthy page_token then page_token else None)],
      Inl RequestError)"
| "get_channel_videos_loop channel_id videos page_token (resp # resps) =
     (let req = SearchGet channel_id (if truthy page_token then page_token else None);
          videos' = videos @ search_videos resp;
          page_token' = nextPageToken resp
      in if \<not> truthy page_token' then ([req], Inr videos')
         else (case get_channel_videos_loop channel_id videos' page_token' resps of
                 (reqs, res) \<Rightarrow> (req # reqs, res)))"

definition get_channel_videos ::
  "string \<Rightarrow> search_response list \<Rightarrow> request list \<times> (error + video list)" where
  "get_channel_videos channel_id resps = get_channel_videos_loop channel_id [] None resps"

definition video_details :: "videos_response \<Rightarrow> (string \<rightharpoonup> detail)" where
  \<comment> \<open>the dictionary \<open>details\<close> built from one response; a later item with the same
      id replaces an earlier one\<close>
  "video_details resp =
     fold (\<lambda>item details.
             details(vi_id item \<mapsto>
               \<lparr>d_duration = vi_duration item,
                d_category = (case vi_categoryId item of None \<Rightarrow> ''Unknown'' | Some c \<Rightarrow> c),
                d_description = (case vi_description item of None \<Rightarrow> [] | Some d \<Rightarrow> d)\<rparr>))
          (case vr_items resp of None \<Rightarrow> [] | Some items \<Rightarrow> items)
          Map.empty"

definition get_video_details ::
  "string list \<Rightarrow> videos_response list \<Rightarrow> request list \<times> (error + (string \<rightharpoonup> detail))" where
  "get_video_details video_ids resps =
     ([VideosGet (py_join '','' video_ids)],
      case resps of
        [] \<Rightarrow> Inl RequestError
      | resp # _ \<Rightarrow> Inr (video_details resp))"

definition clean_title :: "string \<Rightarrow> error + string" where
  "clean_title t =
     (case re_split (Class dash_or_bar) t of
        [] \<Rightarrow> Inl IndexError
      | first # _ \<Rightarrow> Inr (py_strip first))"

definition capitalized_word :: regex where
  \<comment> \<open>\<open>[A-Z][a-z]+\<close>\<close>
  "capitalized_word = Seq (Class upper_AZ) (Many1 (Class lower_az))"

definition stars_pattern :: regex where
  \<comment> \<open>\<open>\b[A-Z][a-z]+(?:\s[A-Z][a-z]+)*\<close>\<close>
  "stars_pattern =
     Seq WordB (Seq capitalized_word (Star (Seq (Class py_isspace) capitalized_word)))"

definition ignore :: "string set" where
  "ignore = {''Latest'', ''Yoruba'', ''Movie'', ''Drama'', ''Part'', ''Episode''}"

definition extract_stars :: "string \<Rightarrow> string \<Rightarrow> string list" where
  "extract_stars t d =
     (let combined = t @ '' '' @ d;
          found = re_findall stars_pattern combined;
          stars = filter (\<lambda>m. m \<notin> ignore) found
      in dict_keys (dict_fromkeys stars))"

section \<open>main\<close>

abbreviation LF :: char where
  \<comment> \<open>the line feed, \<open>"\n"\<close>\<close>
  "LF \<equiv> CHR 0x0A"

definition classify_video :: "(string \<rightharpoonup> detail) \<Rightarrow> video \<Rightarrow> error + movie option" where
  \<comment> \<open>the body of the inner loop of \<open>main\<close> for the video \<open>v\<close>: \<open>Inr None\<close> where it
      runs into \<open>continue\<close>, \<open>Inr (Some m)\<close> where it appends \<open>m\<close> to \<open>movies\<close>\<close>
  "classify_video details v =
     (let vid = videoId v in
      case details vid of
        None \<Rightarrow> Inr None
      | Some d \<Rightarrow>
          (let minutes = d_duration d div 60 in
           if minutes < 15 then Inr None
           else (case clean_title (v_title v) of
                   Inl e \<Rightarrow> Inl e
                 | Inr t \<Rightarrow>
                     (let found = extract_stars (v_title v) (d_description d);
                          desc = take 5 (py_split LF (d_description d));
                          desc' = py_join '' '' (map py_strip (filter (\<lambda>x. py_strip x \<noteq> []) desc))
                      in Inr (Some \<lparr>title = t,
                                    category = d_category d,
                                    stars = (if found \<noteq> [] then found else [''Unknown'']),
                                    duration = minutes,
                                    description =
                                      (if desc' \<noteq> [] then desc' else ''No description'')\<rparr>)))))"

fun process_batch :: "(string \<rightharpoonup> detail) \<Rightarrow> video list \<Rightarrow> movie list \<Rightarrow> error + movie list" where
  \<comment> \<open>the inner loop of \<open>main\<close> over the videos of one batch\<close>
  "process_batch details [] movies = Inr movies"
| "process_batch details (v # vs) movies =
     (case classify_video details v of
        Inl e \<Rightarrow> Inl e
      | Inr None \<Rightarrow> process_batch details vs movies
      | Inr (Some m) \<Rightarrow> process_batch details vs (movies @ [m]))"

function fetch_loop ::
  "nat \<Rightarrow> video list \<Rightarrow> string list \<Rightarrow> videos_response list \<Rightarrow> movie list
   \<Rightarrow> request list \<times> (error + movie list)" where
  \<comment> \<open>the outer loop of \<open>main\<close>, \<open>for i in range(0, len(all_ids), 50)\<close>, from \<open>i\<close> on\<close>
  "fetch_loop i videos all_ids resps movies =
     (if i < length all_ids then
        (let batch = take 50 (drop i all_ids) in
         case get_video_details batch resps of
           (reqs, Inl e) \<Rightarrow> (reqs, Inl e)
         | (reqs, Inr details) \<Rightarrow>
             (case process_batch details (take 50 (drop i videos)) movies of
                Inl e \<Rightarrow> (reqs, Inl e)
              | Inr movies' \<Rightarrow>
                  (case fetch_loop (i + 50) videos all_ids (drop 1 resps) movies' of
                     (reqs', res) \<Rightarrow> (reqs @ reqs', res))))
      else ([], Inr movies))"
  by pat_completeness auto
termination
  by (relation "measure (\<lambda>(i, videos, all_ids, resps, movies). length all_ids - i)") auto

definition print_movie :: "movie \<Rightarrow> console_line list" where
  "print_movie m =
     [New_Movie_Added,
      Title_line (title m),
      Category_line (category m),
      Stars_line (py_join '', '' (stars m)),
      Duration_line (duration m),
      Description_line (take 300 (description m))]"

definition main :: "world \<Rightarrow> run" where
  "main w =
     (let out = [Starting_movie_fetch] in
      case get_channel_id CHANNEL_HANDLE (channels_responses w) of
        (reqs1, Inl e) \<Rightarrow> \<lparr>sent = reqs1, printed = out, outcome = Inl e\<rparr>
      | (reqs1, Inr channel_id) \<Rightarrow>
          (case get_channel_videos channel_id (search_responses w) of
             (reqs2, Inl e) \<Rightarrow> \<lparr>sent = reqs1 @ reqs2, printed = out, outcome = Inl e\<rparr>
           | (reqs2, Inr videos) \<Rightarrow>
               (let all_ids = map videoId videos in
                case fetch_loop 0 videos all_ids (videos_responses w) [] of
                  (reqs3, Inl e) \<Rightarrow>
                    \<lparr>sent = reqs1 @ reqs2 @ reqs3, printed = out, outcome = Inl e\<rparr>
                | (reqs3, Inr movies) \<Rightarrow>
                    \<lparr>sent = reqs1 @ reqs2 @ reqs3,
                     printed = out @ (if movies = [] then [No_full_movies_found]
                                      else concat (map print_movie movies)),
                     outcome = Inr movies\<rparr>)))"

definition emitted :: "(string \<rightharpoonup> detail) \<Rightarrow> video \<Rightarrow> movie option" where
  \<comment> \<open>the record that the inner loop appends for a video, if it appends one\<close>
  "emitted details v = (case classify_video details v of Inr (Some m) \<Rightarrow> Some m | _ \<Rightarrow> None)"

section \<open>What the specification says, in its own words\<close>

fun first_occurrences :: "'a list \<Rightarrow> 'a list" where
  \<comment> \<open>every element once, in the order of its first occurrence\<close>
  "first_occurrences [] = []"
| "first_occurrences (x # xs) = x # first_occurrences (filter (\<lambda>y. y \<noteq> x) xs)"

definition nonblank :: "string \<Rightarrow> bool" where
  \<comment> \<open>a line that is not empty once trimmed\<close>
  "nonblank l = (\<exists>c\<in>set l. \<not> py_isspace c)"

definition spec_description :: "string \<Rightarrow> string" where
  \<comment> \<open>the first 5 non-blank lines, each trimmed, joined with single spaces, or
      the default\<close>
  "spec_description raw =
     (let selected = take 5 (filter nonblank (py_split LF raw));
          joined = py_join '' '' (map py_strip selected)
      in if joined \<noteq> [] then joined else ''No description'')"

text \<open>
  The scenario of the specification: one channel with one listed video, 5400 seconds
  long. The specification leaves the ids and the category open.
\<close>

definition scenario_title :: string where
  "scenario_title = ''Aye Ife - Latest Yoruba Movie 2023 Starring Bola Aina''"

definition scenario_description :: string where
  "scenario_description =
     ''A romantic drama.'' @ [LF] @ ''Starring Bola Aina and Kemi Afolabi.'' @ [LF, LF, LF]"

definition scenario_world :: world where
  "scenario_world =
     \<lparr>channels_responses = [\<lparr>ch_items = Some [\<lparr>ch_id = ''UC1''\<rparr>]\<rparr>],
      search_responses =
        [\<lparr>sr_items = Some [\<lparr>si_videoId = ''v1'', si_title = scenario_title,
                              si_description = None\<rparr>],
          nextPageToken = None\<rparr>],
      videos_responses =
        [\<lparr>vr_items = Some [\<lparr>vi_id = ''v1'', vi_duration = 5400, vi_categoryId = Some ''1'',
                              vi_description = Some scenario_description\<rparr>]\<rparr>]\<rparr>"

text \<open>
  The other scenario of the specification: the same video, 600 seconds long.
\<close>

definition short_world :: world where
  "short_world =
     scenario_world
       \<lparr>videos_responses :=
          [\<lparr>vr_items = Some [\<lparr>vi_id = ''v1'', vi_duration = 600, vi_categoryId = Some ''1'',
                                vi_description = Some scenario_description\<rparr>]\<rparr>]\<rparr>"

text \<open>
  A channel with two listed videos, on two pages; the detail response has them in the
  other order.
\<close>

definition two_video_world :: world where
  "two_video_world =
     \<lparr>channels_responses = [\<lparr>ch_items = Some [\<lparr>ch_id = ''UC1''\<rparr>]\<rparr>],
      search_responses =
        [\<lparr>sr_items = Some [\<lparr>si_videoId = ''v1'', si_title = scenario_title,
                              si_description = None\<rparr>],
          nextPageToken = Some ''p2''\<rparr>,
         \<lparr>sr_items = Some [\<lparr>si_videoId = ''v2'', si_title = ''Omo Ale | Part 2'',
                              si_description = Some ''teaser''\<rparr>],
          nextPageToken = None\<rparr>],
      videos_responses =
        [\<lparr>vr_items = Some [\<lparr>vi_id = ''v2'', vi_duration = 3600, vi_categoryId = None,
                              vi_description = None\<rparr>,
                             \<lparr>vi_id = ''v1'', vi_duration = 5400, vi_categoryId = Some ''1'',
                              vi_description = Some scenario_description\<rparr>]\<rparr>]\<rparr>"

text \<open>A channel lookup that finds nothing, while the other endpoints would answer.\<close>

definition unknown_handle_world :: world where
  "unknown_handle_world = scenario_world \<lparr>channels_responses := [\<lparr>ch_items = Some []\<rparr>]\<rparr>"

declare re_findall_from.simps [simp del]
declare re_split_from.simps [simp del]
declare fetch_loop.simps [simp del]
declare matches.simps(5) [simp del]

section \<open>Deduplication\<close>

lemma dict_keys_setitem_old:
  "k \<in> set (dict_keys d) \<Longrightarrow> dict_keys (dict_setitem d k v) = dict_keys d"
  unfolding dict_keys_def by (induction d) force+

lemma dict_keys_setitem_new:
  "k \<notin> set (dict_keys d) \<Longrightarrow> dict_keys (dict_setitem d k v) = dict_keys d @ [k]"
  unfolding dict_keys_def by (induction d) auto

lemma set_first_occurrences: "set (first_occurrences xs) = set xs"
  by (induction xs rule: first_occurrences.induct) auto

lemma distinct_first_occurrences: "distinct (first_occurrences xs)"
  by (induction xs rule: first_occurrences.induct) (auto simp: set_first_occurrences)

lemma dict_keys_fold:
  "dict_keys (fold (\<lambda>k d. dict_setitem d k ()) xs d)
   = dict_keys d @ first_occurrences (filter (\<lambda>x. x \<notin> set (dict_keys d)) xs)"
proof (induction xs arbitrary: d)
  case Nil
  then show ?case by simp
next
  case (Cons x xs)
  show ?case
  proof (cases "x \<in> set (dict_keys d)")
    case True
    then show ?thesis
      using Cons[of "dict_setitem d x ()"] by (simp add: dict_keys_setitem_old)
  next
    case False
    have "filter (\<lambda>y. y \<noteq> x \<and> y \<notin> set (dict_keys d)) xs
          = filter (\<lambda>y. y \<notin> set (dict_keys d) \<and> y \<noteq> x) xs"
      by (rule filter_cong) auto
    with False show ?thesis
      using Cons[of "dict_setitem d x ()"] by (simp add: dict_keys_setitem_new)
  qed
qed

lemma dict_keys_fromkeys: "dict_keys (dict_fromkeys xs) = first_occurrences xs"
  using dict_keys_fold[of xs "[]"] by (simp add: dict_fromkeys_def dict_keys_def)

text \<open>
  C7. Whatever the candidate names are, \<open>list(dict.fromkeys(stars))\<close> has no element
  twice, has exactly the elements of the candidates and lists them in the order of
  their first occurrence; the result of \<open>extract_stars\<close> is that list for the
  candidates left by the stoplist.
\<close>

theorem extract_stars_dedup:
  "distinct (dict_keys (dict_fromkeys xs))
   \<and> set (dict_keys (dict_fromkeys xs)) = set xs
   \<and> dict_keys (dict_fromkeys xs) = first_occurrences xs
   \<and> extract_stars t d
       = first_occurrences
           (filter (\<lambda>m. m \<notin> ignore) (re_findall stars_pattern (t @ '' '' @ d)))"
  by (simp add: dict_keys_fromkeys distinct_first_occurrences set_first_occurrences
      extract_stars_def)

section \<open>Matches are never empty\<close>

lemma matches_length_le:
  "(p', s') \<in> set (matches r p s) \<Longrightarrow> length s' \<le> length s"
proof (induction r p s arbitrary: p' s' rule: matches.induct)
  case (1 P p)
  then show ?case by simp
next
  case (2 P p c cs)
  then show ?case by (auto split: if_splits)
next
  case (3 p s)
  then show ?case by (auto split: if_splits)
next
  case (4 r1 r2 p s)
  from "4.prems" obtain p1 s1 where a: "(p1, s1) \<in> set (matches r1 p s)"
    and b: "(p', s') \<in> set (matches r2 p1 s1)"
    by auto
  from "4.IH"(1)[OF a] "4.IH"(2)[OF a refl b] show ?case
    by simp
next
  case (5 r p s)
  show ?case
  proof (cases "(p', s') = (p, s)")
    case True
    then show ?thesis by simp
  next
    case False
    with "5.prems" obtain p1 s1 where a: "(p1, s1) \<in> set (matches r p s)"
      and l: "length s1 < length s" and b: "(p', s') \<in> set (matches (Star r) p1 s1)"
      by (auto simp: matches.simps(5)[of r p s] split: if_splits)
    from "5.IH"(2)[OF a refl l b] l show ?thesis
      by simp
  qed
qed

lemma in_matches_Seq:
  "(q, t) \<in> set (matches (Seq r1 r2) p s)
   \<longleftrightarrow> (\<exists>p1 s1. (p1, s1) \<in> set (matches r1 p s) \<and> (q, t) \<in> set (matches r2 p1 s1))"
  by force

lemma matches_Seq_Class_shorter:
  assumes "(p', s') \<in> set (matches (Seq (Class P) r) p s)"
  shows "length s' < length s"
proof -
  from assms obtain p1 s1 where a: "(p1, s1) \<in> set (matches (Class P) p s)"
    and b: "(p', s') \<in> set (matches r p1 s1)"
    unfolding in_matches_Seq by blast
  from a have "length s1 < length s"
    by (cases s) (auto split: if_splits)
  with matches_length_le[OF b] show ?thesis
    by simp
qed

lemma re_match_nonempty:
  assumes "\<And>p' s'. (p', s') \<in> set (matches r p s) \<Longrightarrow> length s' < length s"
    and "re_match r p s = Some (m, p', s')"
  shows "m \<noteq> []"
proof -
  from assms(2) have "(p', s') \<in> set (matches r p s)" and m: "m = take (length s - length s') s"
    by (auto simp: re_match_def split: list.splits)
  from assms(1)[OF this(1)] m show ?thesis
    by auto
qed

lemma split_pattern_match_nonempty:
  "re_match (Class dash_or_bar) p s = Some (m, p', s') \<Longrightarrow> m \<noteq> []"
  by (cases s) (auto simp: re_match_def split: if_splits)

lemma stars_pattern_match_nonempty:
  assumes "re_match stars_pattern p s = Some (m, p', s')"
  shows "m \<noteq> []"
proof (rule re_match_nonempty[OF _ assms])
  fix q t
  assume "(q, t) \<in> set (matches stars_pattern p s)"
  then obtain p1 s1 p2 s2 where a: "(p1, s1) \<in> set (matches WordB p s)"
    and c: "(p2, s2) \<in> set (matches capitalized_word p1 s1)"
    and d: "(q, t) \<in> set (matches (Star (Seq (Class py_isspace) capitalized_word)) p2 s2)"
    unfolding stars_pattern_def in_matches_Seq by blast
  from a have s1: "s1 = s"
    by (auto split: if_splits)
  from c have "length s2 < length s1"
    unfolding capitalized_word_def by (rule matches_Seq_Class_shorter)
  with matches_length_le[OF d] s1 show "length t < length s"
    by simp
qed

section \<open>Title cleanup\<close>

lemma re_match_Class_Nil: "re_match (Class P) p [] = None"
  by (simp add: re_match_def)

lemma re_match_Class_Cons:
  "re_match (Class P) p (c # cs) = (if P c then Some ([c], Some c, cs) else None)"
  by (simp add: re_match_def)

lemma re_split_from_Class_head:
  "\<exists>rest. re_split_from (Class P) p acc s = (rev acc @ takeWhile (\<lambda>c. \<not> P c) s) # rest"
proof (induction s arbitrary: p acc)
  case Nil
  show ?case
    by (simp add: re_split_from.simps[of "Class P" p acc "[]"] re_match_Class_Nil)
next
  case (Cons c cs)
  show ?case
  proof (cases "P c")
    case True
    then show ?thesis
      by (simp add: re_split_from.simps[of "Class P" p acc "c # cs"] re_match_Class_Cons)
  next
    case False
    with Cons[of "Some c" "c # acc"] show ?thesis
      by (simp add: re_split_from.simps[of "Class P" p acc "c # cs"] re_match_Class_Cons)
  qed
qed

lemma clean_title_eq:
  "clean_title t = Inr (py_strip (takeWhile (\<lambda>c. \<not> dash_or_bar c) t))"
proof -
  obtain rest where "re_split (Class dash_or_bar) t = takeWhile (\<lambda>c. \<not> dash_or_bar c) t # rest"
    using re_split_from_Class_head[of dash_or_bar None "[]" t] by (auto simp: re_split_def)
  then show ?thesis
    by (simp add: clean_title_def)
qed

lemma dropWhile_id_iff: "dropWhile P s = s \<longleftrightarrow> s = [] \<or> \<not> P (hd s)"
proof (cases s)
  case Nil
  then show ?thesis by simp
next
  case (Cons a list)
  have "dropWhile P list \<noteq> a # list"
    using length_dropWhile_le[of P list] by (auto dest: arg_cong[where f = length])
  with Cons show ?thesis by simp
qed

lemma py_strip_id_iff:
  "py_strip t = t \<longleftrightarrow> t = [] \<or> (\<not> py_isspace (hd t) \<and> \<not> py_isspace (last t))"
proof (cases "t = []")
  case True
  then show ?thesis by (simp add: py_strip_def)
next
  case False
  show ?thesis
  proof (cases "py_isspace (hd t)")
    case True
    from False obtain a l where t: "t = a # l"
      by (cases t) auto
    with True have "length (dropWhile py_isspace t) \<le> length l"
      using length_dropWhile_le[of py_isspace l] by simp
    moreover have "length (py_strip t) \<le> length (dropWhile py_isspace t)"
      unfolding py_strip_def using length_dropWhile_le[of py_isspace "rev (dropWhile py_isspace t)"]
      by simp
    ultimately have "length (py_strip t) < length t"
      using t by simp
    then have "py_strip t \<noteq> t"
      by auto
    with True False show ?thesis by simp
  next
    case hdns: False
    with False have d: "dropWhile py_isspace t = t"
      by (simp add: dropWhile_id_iff)
    have "py_strip t = t \<longleftrightarrow> dropWhile py_isspace (rev t) = rev t"
      unfolding py_strip_def d by (metis rev_rev_ident)
    also have "\<dots> \<longleftrightarrow> \<not> py_isspace (last t)"
      using False by (simp add: dropWhile_id_iff hd_rev)
    finally show ?thesis using False hdns by simp
  qed
qed

lemma py_strip_eq_Nil_iff: "py_strip s = [] \<longleftrightarrow> list_all py_isspace s"
proof
  assume "py_strip s = []"
  then have a: "\<forall>x\<in>set (dropWhile py_isspace s). py_isspace x"
    by (simp add: py_strip_def)
  have "dropWhile py_isspace s = []"
  proof (rule ccontr)
    assume n: "dropWhile py_isspace s \<noteq> []"
    then have "\<not> py_isspace (hd (dropWhile py_isspace s))"
      by (rule hd_dropWhile)
    with a n show False
      by (meson hd_in_set)
  qed
  then show "list_all py_isspace s"
    by (simp add: list_all_iff)
next
  assume "list_all py_isspace s"
  then have d: "dropWhile py_isspace s = []"
    by (simp add: list_all_iff)
  show "py_strip s = []"
    unfolding py_strip_def d by simp
qed

text \<open>
  C3, as the code has it. A title with no \<open>-\<close> and no \<open>|\<close> comes back with the whitespace
  at its two ends removed: \<open>strip()\<close> runs on every title. It comes back unchanged
  exactly when it is empty or neither starts nor ends with a whitespace character.
\<close>

theorem clean_title_no_separator:
  assumes "CHR ''-'' \<notin> set t" and "CHR ''|'' \<notin> set t"
  shows "clean_title t = Inr (py_strip t)
         \<and> (clean_title t = Inr t) = (t = [] \<or> (\<not> py_isspace (hd t) \<and> \<not> py_isspace (last t)))"
proof -
  from assms have "takeWhile (\<lambda>c. \<not> dash_or_bar c) t = t"
    by (auto simp: dash_or_bar_def)
  with clean_title_eq[of t] have "clean_title t = Inr (py_strip t)"
    by (simp only:)
  then show ?thesis
    by (simp add: py_strip_id_iff)
qed

theorem clean_title_no_separator_witness:
  "CHR ''-'' \<notin> set ''Aye Ife '' \<and> CHR ''|'' \<notin> set ''Aye Ife ''
   \<and> clean_title ''Aye Ife '' = Inr ''Aye Ife''
   \<and> clean_title ''Aye Ife '' \<noteq> Inr ''Aye Ife ''"
proof -
  have h1: "CHR ''-'' \<notin> set ''Aye Ife ''" and h2: "CHR ''|'' \<notin> set ''Aye Ife ''"
    by simp_all
  have s: "py_strip ''Aye Ife '' = ''Aye Ife''"
    by code_simp
  from clean_title_no_separator[OF h1 h2] s h1 h2 show ?thesis
    by simp
qed

text \<open>
  C3, as the specification states it, fails for a title that starts with a space.
\<close>

theorem clean_title_unchanged_counterexample:
  "CHR ''-'' \<notin> set '' Aye Ife'' \<and> CHR ''|'' \<notin> set '' Aye Ife''
   \<and> clean_title '' Aye Ife'' = Inr ''Aye Ife'' \<and> clean_title '' Aye Ife'' \<noteq> Inr '' Aye Ife''"
  by code_simp

text \<open>
  C4. A title with a \<open>-\<close> or a \<open>|\<close> is cut at the first of them: it is \<open>pre\<close>, the
  separator, and the rest, \<open>pre\<close> holds no separator, and \<open>clean_title\<close> returns \<open>pre\<close>
  with the whitespace at its two ends removed.
\<close>

theorem clean_title_before_first_separator:
  assumes "CHR ''-'' \<in> set t \<or> CHR ''|'' \<in> set t"
  shows "\<exists>pre sep post.
           t = pre @ sep # post \<and> (sep = CHR ''-'' \<or> sep = CHR ''|'')
           \<and> CHR ''-'' \<notin> set pre \<and> CHR ''|'' \<notin> set pre
           \<and> pre = takeWhile (\<lambda>c. c \<noteq> CHR ''-'' \<and> c \<noteq> CHR ''|'') t
           \<and> clean_title t = Inr (py_strip pre)"
proof -
  let ?Q = "\<lambda>c. c \<noteq> CHR ''-'' \<and> c \<noteq> CHR ''|''"
  have q: "(\<lambda>c. \<not> dash_or_bar c) = ?Q"
    by (auto simp: dash_or_bar_def)
  from assms have "dropWhile ?Q t \<noteq> []"
    by auto
  then obtain sep post where d: "dropWhile ?Q t = sep # post"
    by (cases "dropWhile ?Q t") auto
  then have "\<not> ?Q sep"
    using hd_dropWhile[of ?Q t] by (metis list.distinct(1) list.sel(1))
  moreover have "t = takeWhile ?Q t @ sep # post"
    using takeWhile_dropWhile_id[of ?Q t] d by simp
  moreover have "CHR ''-'' \<notin> set (takeWhile ?Q t)" "CHR ''|'' \<notin> set (takeWhile ?Q t)"
    by (auto dest: set_takeWhileD)
  moreover have "clean_title t = Inr (py_strip (takeWhile ?Q t))"
    using clean_title_eq[of t] by (simp add: q)
  ultimately show ?thesis
    by blast
qed

theorem clean_title_before_first_separator_witness:
  "(CHR ''-'' \<in> set ''Aye Ife - Latest | Yoruba - Movie'')
   \<and> clean_title ''Aye Ife - Latest | Yoruba - Movie'' = Inr ''Aye Ife''"
proof -
  let ?t = "''Aye Ife - Latest | Yoruba - Movie''"
  have h: "CHR ''-'' \<in> set ?t \<or> CHR ''|'' \<in> set ?t"
    by simp
  have s: "py_strip (takeWhile (\<lambda>c. c \<noteq> CHR ''-'' \<and> c \<noteq> CHR ''|'') ?t) = ''Aye Ife''"
    by code_simp
  from clean_title_before_first_separator[OF h] s have "clean_title ?t = Inr ''Aye Ife''"
    by auto
  then show ?thesis
    by simp
qed

section \<open>Stars\<close>

text \<open>
  C10. A run that \<open>findall\<close> returns is dropped exactly when the whole run is one of the
  six terms of the stoplist; the run \<open>Latest Yoruba Movie\<close>, made of three of them, is
  kept.
\<close>

theorem stoplist_whole_run_only:
  "(m \<in> set (re_findall stars_pattern (t @ '' '' @ d)) \<longrightarrow>
      (m \<in> set (extract_stars t d))
      = (m \<notin> {''Latest'', ''Yoruba'', ''Movie'', ''Drama'', ''Part'', ''Episode''}))
   \<and> extract_stars ''Latest Yoruba Movie'' [] = [''Latest Yoruba Movie'']"
proof -
  have "extract_stars ''Latest Yoruba Movie'' [] = [''Latest Yoruba Movie'']"
    by code_simp
  moreover have "set (extract_stars t d)
      = {m \<in> set (re_findall stars_pattern (t @ '' '' @ d)). m \<notin> ignore}"
    by (simp add: extract_stars_def dict_keys_fromkeys set_first_occurrences)
  ultimately show ?thesis
    by (simp add: ignore_def)
qed

theorem stoplist_whole_run_only_witness:
  "''Latest Yoruba Movie''
     \<in> set (re_findall stars_pattern (''Latest Yoruba Movie 2023 Part'' @ '' '' @ ''one. Drama''))
   \<and> ''Latest Yoruba Movie'' \<in> set (extract_stars ''Latest Yoruba Movie 2023 Part'' ''one. Drama'')
   \<and> ''Part''
     \<in> set (re_findall stars_pattern (''Latest Yoruba Movie 2023 Part'' @ '' '' @ ''one. Drama''))
   \<and> ''Part'' \<notin> set (extract_stars ''Latest Yoruba Movie 2023 Part'' ''one. Drama'')"
proof -
  let ?t = "''Latest Yoruba Movie 2023 Part''" and ?d = "''one. Drama''"
  have f: "re_findall stars_pattern (?t @ '' '' @ ?d)
           = [''Latest Yoruba Movie'', ''Part'', ''Drama'']"
    by code_simp
  have h1: "''Latest Yoruba Movie'' \<in> set (re_findall stars_pattern (?t @ '' '' @ ?d))"
    and h2: "''Part'' \<in> set (re_findall stars_pattern (?t @ '' '' @ ?d))"
    unfolding f by simp_all
  from stoplist_whole_run_only[of "''Latest Yoruba Movie''" ?t ?d] h1
  have "''Latest Yoruba Movie'' \<in> set (extract_stars ?t ?d)"
    by simp
  moreover from stoplist_whole_run_only[of "''Part''" ?t ?d] h2
  have "''Part'' \<notin> set (extract_stars ?t ?d)"
    by simp
  ultimately show ?thesis using h1 h2 by blast
qed

section \<open>The loops of main\<close>

lemma classify_video_Inr: "classify_video details v = Inr (emitted details v)"
  by (simp add: emitted_def classify_video_def clean_title_eq Let_def split: option.splits)

lemma process_batch_eq:
  "process_batch details vs acc = Inr (acc @ List.map_filter (emitted details) vs)"
  by (induction vs arbitrary: acc) (simp_all add: classify_video_Inr split: option.splits)

lemma map_filter_append:
  "List.map_filter f (xs @ ys) = List.map_filter f xs @ List.map_filter f ys"
  by (simp add: List.map_filter_def)

lemma map_filter_cong_set:
  "(\<And>x. x \<in> set xs \<Longrightarrow> f x = g x) \<Longrightarrow> List.map_filter f xs = List.map_filter g xs"
  by (induction xs) (auto split: option.splits)

lemma set_map_filter: "set (List.map_filter f xs) = {y. \<exists>x\<in>set xs. f x = Some y}"
  by (induction xs) (auto split: option.splits)

lemma map_filter_enumerate_shift:
  "List.map_filter (\<lambda>(j, v). F j v) (enumerate (n + c) xs)
   = List.map_filter (\<lambda>(j, v). F (j + c) v) (enumerate n xs)"
proof (induction xs arbitrary: n)
  case Nil
  show ?case by simp
next
  case (Cons x xs)
  from Cons[of "Suc n"] show ?case by (simp split: option.splits)
qed

lemma map_filter_enumerate_snd:
  "List.map_filter (\<lambda>(j, v). g v) (enumerate n xs) = List.map_filter g xs"
  by (induction xs arbitrary: n) (simp_all split: option.splits)

lemma fetch_loop_movies:
  assumes "length all_ids = length videos"
    and "fetch_loop i videos all_ids resps acc = (reqs, Inr ms)"
  shows "ms = acc @ List.map_filter (\<lambda>(j, v). emitted (video_details (resps ! (j div 50))) v)
                     (enumerate 0 (drop i videos))"
  using assms(2)
proof (induction "length all_ids - i" arbitrary: i resps acc reqs ms rule: less_induct)
  case less
  show ?case
  proof (cases "i < length all_ids")
    case False
    with less.prems assms(1) show ?thesis
      by (simp add: fetch_loop.simps[of i])
  next
    case True
    let ?chunk = "take 50 (drop i videos)"
    let ?later = "drop (i + 50) videos"
    from less.prems True obtain resp rest where resps: "resps = resp # rest"
      by (cases resps) (auto simp: fetch_loop.simps[of i] get_video_details_def)
    let ?acc' = "acc @ List.map_filter (emitted (video_details resp)) ?chunk"
    obtain reqs' res where next_run: "fetch_loop (i + 50) videos all_ids rest ?acc' = (reqs', res)"
      by (cases "fetch_loop (i + 50) videos all_ids rest ?acc'") auto
    with less.prems True resps have res: "res = Inr ms"
      by (simp add: fetch_loop.simps[of i] get_video_details_def process_batch_eq)
    from True have "length all_ids - (i + 50) < length all_ids - i"
      by simp
    from less.hyps[OF this next_run[unfolded res]]
    have ih: "ms = ?acc' @ List.map_filter (\<lambda>(j, v). emitted (video_details (rest ! (j div 50))) v)
                            (enumerate 0 ?later)" .
    let ?F = "\<lambda>j v. emitted (video_details (resps ! (j div 50))) v"
    have split: "drop i videos = ?chunk @ ?later"
      by (metis append_take_drop_id drop_drop add.commute)
    have a: "List.map_filter (\<lambda>(j, v). ?F j v) (enumerate 0 ?chunk)
             = List.map_filter (emitted (video_details resp)) ?chunk"
    proof -
      have "List.map_filter (\<lambda>(j, v). ?F j v) (enumerate 0 ?chunk)
            = List.map_filter (\<lambda>(j, v). emitted (video_details resp) v) (enumerate 0 ?chunk)"
        by (rule map_filter_cong_set) (auto simp: in_set_enumerate_eq resps)
      then show ?thesis
        by (simp add: map_filter_enumerate_snd)
    qed
    have b: "List.map_filter (\<lambda>(j, v). ?F j v) (enumerate (length ?chunk) ?later)
             = List.map_filter (\<lambda>(j, v). emitted (video_details (rest ! (j div 50))) v)
                 (enumerate 0 ?later)"
    proof (cases "?later = []")
      case True
      then show ?thesis by simp
    next
      case False
      then have "length ?chunk = 50"
        by simp
      then have "List.map_filter (\<lambda>(j, v). ?F j v) (enumerate (length ?chunk) ?later)
                 = List.map_filter (\<lambda>(j, v). ?F j v) (enumerate (0 + 50) ?later)"
        by simp
      also have "\<dots> = List.map_filter (\<lambda>(j, v). ?F (j + 50) v) (enumerate 0 ?later)"
        by (rule map_filter_enumerate_shift)
      also have "\<dots> = List.map_filter (\<lambda>(j, v). emitted (video_details (rest ! (j div 50))) v)
                         (enumerate 0 ?later)"
      proof -
        have "(resp # rest) ! ((j + 50) div 50) = rest ! (j div 50)" for j
        proof -
          have "(j + 50) div 50 = Suc (j div 50)"
            by simp
          then show ?thesis
            by (simp only: nth_Cons_Suc)
        qed
        then show ?thesis
          by (simp only: resps)
      qed
      finally show ?thesis .
    qed
    have "List.map_filter (\<lambda>(j, v). ?F j v) (enumerate 0 (drop i videos))
          = List.map_filter (emitted (video_details resp)) ?chunk
            @ List.map_filter (\<lambda>(j, v). emitted (video_details (rest ! (j div 50))) v)
                (enumerate 0 ?later)"
      by (subst split) (simp only: enumerate_append_eq map_filter_append a b add_0)
    with ih show ?thesis
      by simp
  qed
qed


lemma main_success:
  assumes "outcome (main w) = Inr movies"
  shows "\<exists>reqs1 channel_id reqs2 videos reqs3.
           get_channel_id CHANNEL_HANDLE (channels_responses w) = (reqs1, Inr channel_id)
           \<and> get_channel_videos channel_id (search_responses w) = (reqs2, Inr videos)
           \<and> fetch_loop 0 videos (map videoId videos) (videos_responses w) [] = (reqs3, Inr movies)
           \<and> sent (main w) = reqs1 @ reqs2 @ reqs3
           \<and> printed (main w)
               = Starting_movie_fetch
                 # (if movies = [] then [No_full_movies_found]
                    else concat (map print_movie movies))"
proof -
  obtain reqs1 r1 where c: "get_channel_id CHANNEL_HANDLE (channels_responses w) = (reqs1, r1)"
    by (cases "get_channel_id CHANNEL_HANDLE (channels_responses w)") auto
  with assms obtain channel_id where r1: "r1 = Inr channel_id"
    by (cases r1) (auto simp: main_def)
  obtain reqs2 r2 where l: "get_channel_videos channel_id (search_responses w) = (reqs2, r2)"
    by (cases "get_channel_videos channel_id (search_responses w)") auto
  with assms c r1 obtain videos where r2: "r2 = Inr videos"
    by (cases r2) (auto simp: main_def)
  obtain reqs3 r3 where
    f: "fetch_loop 0 videos (map videoId videos) (videos_responses w) [] = (reqs3, r3)"
    by (cases "fetch_loop 0 videos (map videoId videos) (videos_responses w) []") auto
  with assms c r1 l r2 have r3: "r3 = Inr movies"
    by (cases r3) (auto simp: main_def)
  from c r1 l r2 f r3 show ?thesis
    by (simp add: main_def)
qed

lemma main_movies:
  assumes "get_channel_id CHANNEL_HANDLE (channels_responses w) = (reqs1, Inr channel_id)"
    and "get_channel_videos channel_id (search_responses w) = (reqs2, Inr videos)"
    and "outcome (main w) = Inr movies"
  shows "movies = List.map_filter
                    (\<lambda>(j, v). emitted (video_details (videos_responses w ! (j div 50))) v)
                    (enumerate 0 videos)"
proof -
  from main_success[OF assms(3)] assms(1,2) obtain reqs3 where
    "fetch_loop 0 videos (map videoId videos) (videos_responses w) [] = (reqs3, Inr movies)"
    by auto
  from fetch_loop_movies[OF _ this] show ?thesis
    by simp
qed

lemma main_emitted:
  assumes "outcome (main w) = Inr movies" and "m \<in> set movies"
  shows "\<exists>details v. classify_video details v = Inr (Some m)"
proof -
  from main_success[OF assms(1)] obtain reqs1 channel_id reqs2 videos where
    "get_channel_id CHANNEL_HANDLE (channels_responses w) = (reqs1, Inr channel_id)"
    "get_channel_videos channel_id (search_responses w) = (reqs2, Inr videos)"
    by blast
  from main_movies[OF this assms(1)] assms(2) obtain j v where
    "emitted (video_details (videos_responses w ! (j div 50))) v = Some m"
    by (auto simp: set_map_filter)
  then have "classify_video (video_details (videos_responses w ! (j div 50))) v = Inr (Some m)"
    by (simp add: classify_video_Inr)
  then show ?thesis
    by blast
qed



lemma classify_video_eq:
  assumes "details (videoId v) = Some d"
  shows "classify_video details v
         = (if d_duration d div 60 < 15 then Inr None
            else Inr (Some
              \<lparr>title = py_strip (takeWhile (\<lambda>c. \<not> dash_or_bar c) (v_title v)),
               category = d_category d,
               stars = (if extract_stars (v_title v) (d_description d) \<noteq> []
                        then extract_stars (v_title v) (d_description d) else [''Unknown'']),
               duration = d_duration d div 60,
               description =
                 (if py_join '' '' (map py_strip (filter (\<lambda>x. py_strip x \<noteq> [])
                        (take 5 (py_split LF (d_description d))))) \<noteq> []
                  then py_join '' '' (map py_strip (filter (\<lambda>x. py_strip x \<noteq> [])
                        (take 5 (py_split LF (d_description d)))))
                  else ''No description'')\<rparr>))"
  using assms by (simp add: classify_video_def clean_title_eq Let_def)

lemma classify_video_Some:
  assumes "classify_video details v = Inr (Some m)"
  shows "\<exists>d. details (videoId v) = Some d \<and> 15 \<le> d_duration d div 60
             \<and> duration m = d_duration d div 60
             \<and> stars m = (if extract_stars (v_title v) (d_description d) \<noteq> []
                           then extract_stars (v_title v) (d_description d) else [''Unknown''])"
proof (cases "details (videoId v)")
  case None
  with assms show ?thesis
    by (simp add: classify_video_def)
next
  case (Some d)
  show ?thesis
  proof (cases "d_duration d div 60 < 15")
    case True
    with assms Some show ?thesis
      by (simp add: classify_video_eq)
  next
    case False
    with assms Some have "15 \<le> d_duration d div 60" "duration m = d_duration d div 60"
      "stars m = (if extract_stars (v_title v) (d_description d) \<noteq> []
                  then extract_stars (v_title v) (d_description d) else [''Unknown''])"
      by (auto simp: classify_video_eq)
    with Some show ?thesis
      by blast
  qed
qed

lemma map_filter_enumerate_indices:
  "\<exists>idx. sorted_wrt (<) idx
         \<and> length idx = length (List.map_filter (\<lambda>(j, v). F j v) (enumerate 0 xs))
         \<and> (\<forall>n<length idx.
               idx ! n < length xs
               \<and> F (idx ! n) (xs ! (idx ! n))
                 = Some (List.map_filter (\<lambda>(j, v). F j v) (enumerate 0 xs) ! n))"
proof -
  let ?idx = "filter (\<lambda>j. F j (xs ! j) \<noteq> None) [0..<length xs]"
  have e: "enumerate 0 xs = map (\<lambda>j. (j, xs ! j)) [0..<length xs]"
    using enumerate_map_upt[of 0 "\<lambda>i. xs ! i" "length xs"] by (simp add: map_nth)
  have m: "List.map_filter (\<lambda>(j, v). F j v) (enumerate 0 xs) = map (\<lambda>j. the (F j (xs ! j))) ?idx"
    unfolding e by (simp add: List.map_filter_def filter_map comp_def)
  have s: "sorted_wrt (<) ?idx"
    by (simp add: sorted_wrt_filter)
  have "?idx ! n < length xs \<and> F (?idx ! n) (xs ! (?idx ! n)) = Some (map (\<lambda>j. the (F j (xs ! j))) ?idx ! n)"
    if "n < length ?idx" for n
  proof -
    from that have "?idx ! n \<in> set ?idx"
      by (rule nth_mem)
    then have "?idx ! n < length xs" and "F (?idx ! n) (xs ! (?idx ! n)) \<noteq> None"
      by auto
    with that show ?thesis
      by auto
  qed
  with s m show ?thesis
    by (intro exI[of _ ?idx]) simp
qed

lemma scenario_run:
  "main scenario_world
   = \<lparr>sent = [ChannelsGet ''itelediconstudio'', SearchGet ''UC1'' None, VideosGet ''v1''],
      printed =
        [Starting_movie_fetch, New_Movie_Added, Title_line ''Aye Ife'', Category_line ''1'',
         Stars_line ''Aye Ife, Latest Yoruba Movie, Starring Bola Aina, Kemi Afolabi'',
         Duration_line 90,
         Description_line ''A romantic drama. Starring Bola Aina and Kemi Afolabi.''],
      outcome =
        Inr [\<lparr>title = ''Aye Ife'', category = ''1'',
              stars = [''Aye Ife'', ''Latest Yoruba Movie'', ''Starring Bola Aina'',
                       ''Kemi Afolabi''],
              duration = 90,
              description = ''A romantic drama. Starring Bola Aina and Kemi Afolabi.''\<rparr>]\<rparr>"
  by code_simp

lemma short_run:
  "main short_world
   = \<lparr>sent = [ChannelsGet ''itelediconstudio'', SearchGet ''UC1'' None, VideosGet ''v1''],
      printed = [Starting_movie_fetch, No_full_movies_found],
      outcome = Inr []\<rparr>"
  by code_simp

lemma two_video_run:
  "main two_video_world
   = \<lparr>sent = [ChannelsGet ''itelediconstudio'', SearchGet ''UC1'' None,
              SearchGet ''UC1'' (Some ''p2''), VideosGet ''v1,v2''],
      printed =
        [Starting_movie_fetch,
         New_Movie_Added, Title_line ''Aye Ife'', Category_line ''1'',
         Stars_line ''Aye Ife, Latest Yoruba Movie, Starring Bola Aina, Kemi Afolabi'',
         Duration_line 90,
         Description_line ''A romantic drama. Starring Bola Aina and Kemi Afolabi.'',
         New_Movie_Added, Title_line ''Omo Ale'', Category_line ''Unknown'',
         Stars_line ''Omo Ale'', Duration_line 60, Description_line ''No description''],
      outcome =
        Inr [\<lparr>title = ''Aye Ife'', category = ''1'',
              stars = [''Aye Ife'', ''Latest Yoruba Movie'', ''Starring Bola Aina'',
                       ''Kemi Afolabi''],
              duration = 90,
              description = ''A romantic drama. Starring Bola Aina and Kemi Afolabi.''\<rparr>,
             \<lparr>title = ''Omo Ale'', category = ''Unknown'', stars = [''Omo Ale''],
              duration = 60, description = ''No description''\<rparr>]\<rparr>"
  by code_simp

section \<open>The scenario\<close>

lemma scenario_clean_title: "clean_title scenario_title = Inr ''Aye Ife''"
  by code_simp

lemma scenario_extract_stars:
  "extract_stars scenario_title scenario_description
   = [''Aye Ife'', ''Latest Yoruba Movie'', ''Starring Bola Aina'', ''Kemi Afolabi'']"
  by code_simp

lemma scenario_joined:
  "py_join '' '' (map py_strip (filter (\<lambda>x. py_strip x \<noteq> [])
     (take 5 (py_split LF scenario_description))))
   = ''A romantic drama. Starring Bola Aina and Kemi Afolabi.''"
  by code_simp

text \<open>
  C1, as the code has it. Whatever the id, the category and the listed description
  are, the video of the scenario gives the record with title \<open>Aye Ife\<close>, duration 90,
  the description of the specification and the four stars \<open>Aye Ife\<close>,
  \<open>Latest Yoruba Movie\<close>, \<open>Starring Bola Aina\<close> and \<open>Kemi Afolabi\<close>, in this order:
  \<open>Starring Bola Aina\<close>, not \<open>Bola Aina\<close>, comes before \<open>Kemi Afolabi\<close>, and no star
  is \<open>Latest\<close>, \<open>Yoruba\<close> or \<open>Movie\<close>.
\<close>

theorem scenario_record:
  "classify_video
     [vid \<mapsto> \<lparr>d_duration = 5400, d_category = cat, d_description = scenario_description\<rparr>]
     \<lparr>videoId = vid, v_title = scenario_title, v_description = listed\<rparr>
   = Inr (Some \<lparr>title = ''Aye Ife'', category = cat,
                 stars = [''Aye Ife'', ''Latest Yoruba Movie'', ''Starring Bola Aina'',
                          ''Kemi Afolabi''],
                 duration = 90,
                 description = ''A romantic drama. Starring Bola Aina and Kemi Afolabi.''\<rparr>)
   \<and> ''Latest'' \<notin> set (extract_stars scenario_title scenario_description)
   \<and> ''Yoruba'' \<notin> set (extract_stars scenario_title scenario_description)
   \<and> ''Movie'' \<notin> set (extract_stars scenario_title scenario_description)"
  by (simp add: classify_video_def scenario_clean_title scenario_extract_stars scenario_joined)

text \<open>
  C1, as the specification states it, fails: run on the scenario, \<open>main\<close> emits one
  record, and \<open>Bola Aina\<close> is not among its stars.
\<close>

theorem scenario_stars_counterexample:
  "outcome (main scenario_world)
   = Inr [\<lparr>title = ''Aye Ife'', category = ''1'',
           stars = [''Aye Ife'', ''Latest Yoruba Movie'', ''Starring Bola Aina'',
                    ''Kemi Afolabi''],
           duration = 90,
           description = ''A romantic drama. Starring Bola Aina and Kemi Afolabi.''\<rparr>]
   \<and> ''Bola Aina'' \<notin> set [''Aye Ife'', ''Latest Yoruba Movie'', ''Starring Bola Aina'',
                            ''Kemi Afolabi'']"
  by (simp add: scenario_run)

section \<open>Duration\<close>

text \<open>
  C5. For a video whose details give \<open>d\<close> seconds, the minutes are the floor of
  \<open>d / 60\<close>: below 15 the video is skipped, from 15 on a record with that duration is
  appended. Every record that \<open>main\<close> emits has a duration of at least 15.
\<close>

theorem minutes_floor_and_threshold:
  "(details (videoId v) = Some d \<longrightarrow>
      (\<lfloor>real_of_int (d_duration d) / 60\<rfloor> < 15 \<longrightarrow> classify_video details v = Inr None)
      \<and> (15 \<le> \<lfloor>real_of_int (d_duration d) / 60\<rfloor> \<longrightarrow>
           (\<exists>m. classify_video details v = Inr (Some m)
                \<and> duration m = \<lfloor>real_of_int (d_duration d) / 60\<rfloor>)))
   \<and> (outcome (main w) = Inr movies \<longrightarrow> (\<forall>m\<in>set movies. 15 \<le> duration m))"
proof -
  have fl: "\<lfloor>real_of_int x / 60\<rfloor> = x div 60" for x :: int
    using floor_divide_of_int_eq[of x 60, where ?'a = real] by simp
  have a: "15 \<le> duration m" if "outcome (main w) = Inr movies" "m \<in> set movies" for m
  proof -
    from main_emitted[OF that] obtain details v where "classify_video details v = Inr (Some m)"
      by blast
    from classify_video_Some[OF this] show ?thesis
      by auto
  qed
  have b: "classify_video details v = Inr None"
    if "details (videoId v) = Some d" "d_duration d div 60 < 15"
    using that by (simp add: classify_video_eq)
  have c: "\<exists>m. classify_video details v = Inr (Some m) \<and> duration m = d_duration d div 60"
    if "details (videoId v) = Some d" "15 \<le> d_duration d div 60"
    using that by (simp add: classify_video_eq)
  from a b c show ?thesis
    unfolding fl by blast
qed

theorem minutes_floor_and_threshold_witness:
  "classify_video
     [''v1'' \<mapsto> \<lparr>d_duration = 899, d_category = ''1'', d_description = scenario_description\<rparr>]
     \<lparr>videoId = ''v1'', v_title = scenario_title, v_description = []\<rparr>
   = Inr None
   \<and> (\<exists>m. classify_video
             [''v1'' \<mapsto> \<lparr>d_duration = 900, d_category = ''1'',
                          d_description = scenario_description\<rparr>]
             \<lparr>videoId = ''v1'', v_title = scenario_title, v_description = []\<rparr>
           = Inr (Some m)
         \<and> duration m = 15)
   \<and> (\<exists>m. outcome (main scenario_world) = Inr [m] \<and> 15 \<le> duration m)"
proof -
  let ?v = "\<lparr>videoId = ''v1'', v_title = scenario_title, v_description = []\<rparr>"
  let ?d1 = "\<lparr>d_duration = 899, d_category = ''1'', d_description = scenario_description\<rparr>"
  let ?d2 = "\<lparr>d_duration = 900, d_category = ''1'', d_description = scenario_description\<rparr>"
  have "[''v1'' \<mapsto> ?d1] (videoId ?v) = Some ?d1"
    and "\<lfloor>real_of_int (d_duration ?d1) / 60\<rfloor> < 15"
    by simp_all
  with minutes_floor_and_threshold[of "[''v1'' \<mapsto> ?d1]" ?v ?d1]
  have 1: "classify_video [''v1'' \<mapsto> ?d1] ?v = Inr None"
    by blast
  have "[''v1'' \<mapsto> ?d2] (videoId ?v) = Some ?d2"
    and "\<lfloor>real_of_int (d_duration ?d2) / 60\<rfloor> = 15"
    by simp_all
  with minutes_floor_and_threshold[of "[''v1'' \<mapsto> ?d2]" ?v ?d2]
  have 2: "\<exists>m. classify_video [''v1'' \<mapsto> ?d2] ?v = Inr (Some m) \<and> duration m = 15"
    by simp
  obtain ms where o: "outcome (main scenario_world) = Inr ms" and l: "\<exists>m. ms = [m]"
    by (simp add: scenario_run)
  from minutes_floor_and_threshold[of _ _ _ scenario_world ms] o
  have "\<forall>m\<in>set ms. 15 \<le> duration m"
    by blast
  with o l have 3: "\<exists>m. outcome (main scenario_world) = Inr [m] \<and> 15 \<le> duration m"
    by auto
  from 1 2 3 show ?thesis
    by blast
qed

section \<open>The default star\<close>

text \<open>
  C6, as the code has it. Every record that \<open>main\<close> emits has a star. The runs are
  those of the joined text, the title, a space and the description: where every run
  that \<open>findall\<close> returns on the joined text is a term of the stoplist (as where there
  is no run), the stars of the record are exactly \<open>Unknown\<close>.
\<close>

theorem stars_never_empty:
  "(outcome (main w) = Inr movies \<longrightarrow> (\<forall>m\<in>set movies. stars m \<noteq> []))
   \<and> (classify_video details v = Inr (Some m) \<and> details (videoId v) = Some d
      \<and> set (re_findall stars_pattern (v_title v @ '' '' @ d_description d)) \<subseteq> ignore
      \<longrightarrow> stars m = [''Unknown''])"
proof -
  have a: "stars m \<noteq> []" if "outcome (main w) = Inr movies" "m \<in> set movies" for m
  proof -
    from main_emitted[OF that] obtain details v where "classify_video details v = Inr (Some m)"
      by blast
    from classify_video_Some[OF this] obtain d :: detail where
      "stars m = (if extract_stars (v_title v) (d_description d) \<noteq> []
                  then extract_stars (v_title v) (d_description d) else [''Unknown''])"
      by blast
    then show ?thesis
      by (cases "extract_stars (v_title v) (d_description d) = []") simp_all
  qed
  have e: "extract_stars t x = []"
    if "set (re_findall stars_pattern (t @ '' '' @ x)) \<subseteq> ignore" for t x
  proof -
    from that have "filter (\<lambda>m. m \<notin> ignore) (re_findall stars_pattern (t @ '' '' @ x)) = []"
      by (auto simp: filter_empty_conv)
    then show ?thesis
      by (simp add: extract_stars_def dict_fromkeys_def dict_keys_def)
  qed
  have b: "stars m = [''Unknown'']"
    if "classify_video details v = Inr (Some m)" "details (videoId v) = Some d"
      "set (re_findall stars_pattern (v_title v @ '' '' @ d_description d)) \<subseteq> ignore"
  proof -
    from classify_video_Some[OF that(1)] that(2) have
      "stars m = (if extract_stars (v_title v) (d_description d) \<noteq> []
                  then extract_stars (v_title v) (d_description d) else [''Unknown''])"
      by auto
    with e[OF that(3)] show ?thesis
      by simp
  qed
  from a b show ?thesis
    by blast
qed

theorem stars_never_empty_witness:
  "(\<exists>m. outcome (main scenario_world) = Inr [m] \<and> stars m \<noteq> [])
   \<and> set (re_findall stars_pattern (''Latest 2023 - Yoruba'' @ '' '' @ ''a Drama in Part 2''))
     = {''Latest'', ''Yoruba'', ''Drama'', ''Part''}
   \<and> (\<exists>m. classify_video
             [''v1'' \<mapsto> \<lparr>d_duration = 5400, d_category = ''1'',
                          d_description = ''a Drama in Part 2''\<rparr>]
             \<lparr>videoId = ''v1'', v_title = ''Latest 2023 - Yoruba'', v_description = []\<rparr>
           = Inr (Some m)
         \<and> stars m = [''Unknown''])"
proof -
  let ?v = "\<lparr>videoId = ''v1'', v_title = ''Latest 2023 - Yoruba'', v_description = []\<rparr>"
  let ?d = "\<lparr>d_duration = 5400, d_category = ''1'', d_description = ''a Drama in Part 2''\<rparr>"
  obtain ms where o: "outcome (main scenario_world) = Inr ms" and l: "\<exists>m. ms = [m]"
    by (simp add: scenario_run)
  from stars_never_empty[of scenario_world ms] o
  have "\<forall>m\<in>set ms. stars m \<noteq> []"
    by blast
  with o l have 1: "\<exists>m. outcome (main scenario_world) = Inr [m] \<and> stars m \<noteq> []"
    by auto
  have f: "re_findall stars_pattern (''Latest 2023 - Yoruba'' @ '' '' @ ''a Drama in Part 2'')
           = [''Latest'', ''Yoruba'', ''Drama'', ''Part'']"
    by code_simp
  then have 2: "set (re_findall stars_pattern (''Latest 2023 - Yoruba'' @ '' '' @ ''a Drama in Part 2''))
                = {''Latest'', ''Yoruba'', ''Drama'', ''Part''}"
    by (simp only: list.set)
  have s: "set (re_findall stars_pattern (v_title ?v @ '' '' @ d_description ?d)) \<subseteq> ignore"
    using 2 by (simp add: ignore_def)
  have k: "[''v1'' \<mapsto> ?d] (videoId ?v) = Some ?d"
    by simp
  obtain m where c: "classify_video [''v1'' \<mapsto> ?d] ?v = Inr (Some m)"
    using classify_video_eq[of "[''v1'' \<mapsto> ?d]" ?v ?d] k by simp
  from stars_never_empty[of _ _ "[''v1'' \<mapsto> ?d]" ?v m ?d] c k s
  have "stars m = [''Unknown'']"
    by blast
  with c have 3: "\<exists>m. classify_video [''v1'' \<mapsto> ?d] ?v = Inr (Some m) \<and> stars m = [''Unknown'']"
    by blast
  from 1 2 3 show ?thesis
    by blast
qed

text \<open>
  C6, as the specification states it, fails where a run goes from the end of the title
  into the description. The only run of the title \<open>Movie\<close> is \<open>Movie\<close>, the only run of
  the description \<open>Drama\<close> is \<open>Drama\<close>, both are terms of the stoplist, and the record
  has the star \<open>Movie Drama\<close>, not \<open>Unknown\<close>.
\<close>

theorem stoplist_runs_per_field_counterexample:
  "re_findall stars_pattern ''Movie'' = [''Movie'']
   \<and> re_findall stars_pattern ''Drama'' = [''Drama'']
   \<and> ''Movie'' \<in> ignore \<and> ''Drama'' \<in> ignore
   \<and> classify_video
       [''v1'' \<mapsto> \<lparr>d_duration = 5400, d_category = ''1'', d_description = ''Drama''\<rparr>]
       \<lparr>videoId = ''v1'', v_title = ''Movie'', v_description = []\<rparr>
     = Inr (Some \<lparr>title = ''Movie'', category = ''1'', stars = [''Movie Drama''],
                   duration = 90, description = ''Drama''\<rparr>)
   \<and> [''Movie Drama''] \<noteq> [''Unknown'']"
  by code_simp

section \<open>Channel resolution\<close>

text \<open>
  C8. Where the response to the channel lookup has no items (no \<open>items\<close> field, or an
  empty list), \<open>get_channel_id\<close> raises its \<open>ValueError\<close>, and \<open>main\<close> ends with it
  after the one request of the lookup: no search request and no detail request is
  sent, and nothing but the starting line is printed.
\<close>

theorem unresolved_handle_stops_run:
  assumes "channels_responses w = resp # rest"
    and "ch_items resp = None \<or> ch_items resp = Some []"
  shows "get_channel_id handle (channels_responses w)
         = ([ChannelsGet handle],
            Inl (ValueError (''Could not resolve channel handle '' @ handle)))
         \<and> outcome (main w)
           = Inl (ValueError (''Could not resolve channel handle '' @ CHANNEL_HANDLE))
         \<and> sent (main w) = [ChannelsGet CHANNEL_HANDLE]
         \<and> printed (main w) = [Starting_movie_fetch]"
proof -
  from assms have "get_channel_id h (channels_responses w)
         = ([ChannelsGet h], Inl (ValueError (''Could not resolve channel handle '' @ h)))" for h
    by (auto simp: get_channel_id_def)
  then show ?thesis
    by (simp add: main_def)
qed

theorem unresolved_handle_stops_run_witness:
  "channels_responses unknown_handle_world = [\<lparr>ch_items = Some []\<rparr>]
   \<and> search_responses unknown_handle_world \<noteq> []
   \<and> videos_responses unknown_handle_world \<noteq> []
   \<and> outcome (main unknown_handle_world)
     = Inl (ValueError ''Could not resolve channel handle itelediconstudio'')
   \<and> sent (main unknown_handle_world) = [ChannelsGet ''itelediconstudio'']
   \<and> printed (main unknown_handle_world) = [Starting_movie_fetch]"
proof -
  have h1: "channels_responses unknown_handle_world = \<lparr>ch_items = Some []\<rparr> # []"
    by (simp add: unknown_handle_world_def)
  have h2: "ch_items \<lparr>ch_items = Some []\<rparr> = None \<or> ch_items \<lparr>ch_items = Some []\<rparr> = Some []"
    by simp
  have q: "search_responses unknown_handle_world \<noteq> []"
    "videos_responses unknown_handle_world \<noteq> []"
    by (simp_all add: unknown_handle_world_def scenario_world_def)
  from unresolved_handle_stops_run[OF h1 h2, of CHANNEL_HANDLE] h1 q show ?thesis
    by (simp add: CHANNEL_HANDLE_def)
qed

section \<open>Order of the output\<close>

text \<open>
  C9. Where the run succeeds, the records are the listed videos in their order, each
  replaced by the record the loop appends for it, or left out; the video at position
  \<open>j\<close> is looked up in the details of batch \<open>j div 50\<close>. So the \<open>n\<close>-th record comes
  from the video at a position \<open>idx ! n\<close> that grows with \<open>n\<close>. With no record, the
  output after the starting line is the one notice that no movie was found; otherwise
  it is the lines of the records, in this order.
\<close>

theorem records_in_listing_order:
  assumes "get_channel_id CHANNEL_HANDLE (channels_responses w) = (reqs1, Inr channel_id)"
    and "get_channel_videos channel_id (search_responses w) = (reqs2, Inr videos)"
    and "outcome (main w) = Inr movies"
  shows "movies = List.map_filter
                    (\<lambda>(j, v). emitted (video_details (videos_responses w ! (j div 50))) v)
                    (enumerate 0 videos)
         \<and> (\<exists>idx. sorted_wrt (<) idx \<and> length idx = length movies
                \<and> (\<forall>n<length movies.
                      idx ! n < length videos
                      \<and> emitted (video_details (videos_responses w ! (idx ! n div 50)))
                          (videos ! (idx ! n))
                        = Some (movies ! n)))
         \<and> printed (main w)
           = Starting_movie_fetch
             # (if movies = [] then [No_full_movies_found]
                else concat (map print_movie movies))"
proof -
  let ?F = "\<lambda>j v. emitted (video_details (videos_responses w ! (j div 50))) v"
  have m: "movies = List.map_filter (\<lambda>(j, v). ?F j v) (enumerate 0 videos)"
    by (rule main_movies[OF assms])
  from map_filter_enumerate_indices[of ?F videos] obtain idx where
    "sorted_wrt (<) idx" "length idx = length movies"
    "\<forall>n<length idx. idx ! n < length videos \<and> ?F (idx ! n) (videos ! (idx ! n)) = Some (movies ! n)"
    unfolding m[symmetric] by blast
  then have "\<exists>idx. sorted_wrt (<) idx \<and> length idx = length movies
                \<and> (\<forall>n<length movies.
                      idx ! n < length videos
                      \<and> ?F (idx ! n) (videos ! (idx ! n)) = Some (movies ! n))"
    by auto
  with m main_success[OF assms(3)] show ?thesis
    by auto
qed

theorem records_in_listing_order_witness:
  "map v_title (projr (snd (get_channel_videos ''UC1'' (search_responses two_video_world))))
   = [scenario_title, ''Omo Ale | Part 2'']
   \<and> map title (projr (outcome (main two_video_world))) = [''Aye Ife'', ''Omo Ale'']
   \<and> outcome (main short_world) = Inr []
   \<and> printed (main short_world) = [Starting_movie_fetch, No_full_movies_found]"
proof -
  let ?v1 = "\<lparr>videoId = ''v1'', v_title = scenario_title, v_description = []\<rparr>"
  let ?v2 = "\<lparr>videoId = ''v2'', v_title = ''Omo Ale | Part 2'', v_description = ''teaser''\<rparr>"
  have c: "get_channel_id CHANNEL_HANDLE (channels_responses two_video_world)
           = ([ChannelsGet CHANNEL_HANDLE], Inr ''UC1'')"
    by (simp add: get_channel_id_def two_video_world_def)
  have l: "get_channel_videos ''UC1'' (search_responses two_video_world)
           = ([SearchGet ''UC1'' None, SearchGet ''UC1'' (Some ''p2'')], Inr [?v1, ?v2])"
    by (simp add: get_channel_videos_def two_video_world_def search_videos_def truthy_def)
  obtain ms where o: "outcome (main two_video_world) = Inr ms"
    and t: "map title ms = [''Aye Ife'', ''Omo Ale'']"
    by (simp add: two_video_run)
  note a = records_in_listing_order[OF c l o]
  have c': "get_channel_id CHANNEL_HANDLE (channels_responses short_world)
           = ([ChannelsGet CHANNEL_HANDLE], Inr ''UC1'')"
    by (simp add: get_channel_id_def short_world_def scenario_world_def)
  have l': "get_channel_videos ''UC1'' (search_responses short_world)
           = ([SearchGet ''UC1'' None], Inr [?v1])"
    by (simp add: get_channel_videos_def short_world_def scenario_world_def search_videos_def
        truthy_def)
  have o': "outcome (main short_world) = Inr []"
    by (simp add: short_run)
  from records_in_listing_order[OF c' l' o']
  have "printed (main short_world) = [Starting_movie_fetch, No_full_movies_found]"
    by simp
  with a l o t o' show ?thesis
    by simp
qed

section \<open>Description\<close>

lemma nonblank_iff: "nonblank l \<longleftrightarrow> py_strip l \<noteq> []"
  by (auto simp: nonblank_def py_strip_eq_Nil_iff list_all_iff)

text \<open>
  C2, as the code has it. The description of a record is made from the first 5 lines
  of the raw description: those that are blank are dropped, the others are trimmed and
  joined with single spaces; an empty result gives \<open>No description\<close>. For a raw
  description of at most 5 lines this is the description of the specification.
\<close>

theorem description_from_first_five_lines:
  assumes "details (videoId v) = Some d" and "classify_video details v = Inr (Some m)"
  shows "description m
         = (let selected = filter nonblank (take 5 (py_split LF (d_description d)));
                joined = py_join '' '' (map py_strip selected)
            in if joined \<noteq> [] then joined else ''No description'')
         \<and> (length (py_split LF (d_description d)) \<le> 5 \<longrightarrow>
              description m = spec_description (d_description d))"
proof -
  have n: "(\<lambda>x. py_strip x \<noteq> []) = nonblank"
    by (auto simp: nonblank_iff)
  from assms have "\<not> d_duration d div 60 < 15"
    by (auto simp: classify_video_eq)
  with assms have 1: "description m
         = (let selected = filter nonblank (take 5 (py_split LF (d_description d)));
                joined = py_join '' '' (map py_strip selected)
            in if joined \<noteq> [] then joined else ''No description'')"
    by (auto simp: classify_video_eq n Let_def)
  have "take 5 (filter nonblank ls) = filter nonblank (take 5 ls)" if "length ls \<le> 5" for ls
  proof -
    have "length (filter nonblank ls) \<le> 5"
      using that length_filter_le[of nonblank ls] by linarith
    with that show ?thesis by simp
  qed
  with 1 show ?thesis
    by (simp add: spec_description_def)
qed

theorem description_from_first_five_lines_witness:
  "length (py_split LF scenario_description) = 5
   \<and> (\<exists>m. classify_video
             [''v1'' \<mapsto> \<lparr>d_duration = 5400, d_category = ''1'',
                          d_description = scenario_description\<rparr>]
             \<lparr>videoId = ''v1'', v_title = scenario_title, v_description = []\<rparr>
           = Inr (Some m)
         \<and> description m = ''A romantic drama. Starring Bola Aina and Kemi Afolabi.''
         \<and> description m = spec_description scenario_description)"
proof -
  let ?v = "\<lparr>videoId = ''v1'', v_title = scenario_title, v_description = []\<rparr>"
  let ?d = "\<lparr>d_duration = 5400, d_category = ''1'', d_description = scenario_description\<rparr>"
  have n: "length (py_split LF scenario_description) = 5"
    by code_simp
  have k: "[''v1'' \<mapsto> ?d] (videoId ?v) = Some ?d"
    by simp
  obtain m where c: "classify_video [''v1'' \<mapsto> ?d] ?v = Inr (Some m)"
    using classify_video_eq[of "[''v1'' \<mapsto> ?d]" ?v ?d] k by simp
  have s: "spec_description scenario_description
           = ''A romantic drama. Starring Bola Aina and Kemi Afolabi.''"
    by code_simp
  have n': "length (py_split LF (d_description ?d)) \<le> 5"
    by (simp add: n)
  have "length (py_split LF (d_description ?d)) \<le> 5
        \<longrightarrow> description m = spec_description (d_description ?d)"
    using description_from_first_five_lines[of "[''v1'' \<mapsto> ?d]" ?v ?d m, OF k c]
    by (rule conjunct2)
  from this n' have "description m = spec_description (d_description ?d)"
    by (rule mp)
  then have "description m = spec_description scenario_description"
    by simp
  with c n s show ?thesis
    by auto
qed

text \<open>
  C2, as the specification states it, fails for a description whose first line is
  empty and that has six lines: the first 5 non-blank lines are \<open>a\<close> to \<open>e\<close>, and the
  record has \<open>a\<close> to \<open>d\<close>.
\<close>

theorem first_five_nonblank_counterexample:
  "map_option description
     (emitted [''v1'' \<mapsto> \<lparr>d_duration = 5400, d_category = ''1'',
                          d_description = [LF] @ ''a'' @ [LF] @ ''b'' @ [LF] @ ''c'' @ [LF]
                                          @ ''d'' @ [LF] @ ''e''\<rparr>]
        \<lparr>videoId = ''v1'', v_title = ''Aye Ife'', v_description = []\<rparr>)
   = Some ''a b c d''
   \<and> spec_description ([LF] @ ''a'' @ [LF] @ ''b'' @ [LF] @ ''c'' @ [LF] @ ''d'' @ [LF] @ ''e'')
     = ''a b c d e''"
  by code_simp

end
